theory Spec2Isabelle
  imports Main "HOL-Library.AList"
begin

section \<open>The document model\<close>

text \<open>
  Both scripts work on the value that \<^verbatim>\<open>json.load\<close> returns: a tree of dicts, lists,
  strings, numbers, booleans and \<^verbatim>\<open>None\<close>. A dict keeps its insertion order, and the
  traversal order of the scripts depends on it, so a dict is an association list; a lookup
  (\<^const>\<open>map_of\<close>) and an assignment (\<^const>\<open>AList.update\<close>) both address the first entry
  of a key, and an assignment to a new key appends it, as a Python dict does.
  A parsed document is a tree: no two places share an object, so the in-place mutation of
  the scripts is modelled by returning the updated value.

  A \<^typ>\<open>string\<close> is a list of 8-bit characters, read as the code points below 256; among
  these the decimal digits, which \<^verbatim>\<open>\d\<close> matches, are exactly \<^verbatim>\<open>0\<close> to \<^verbatim>\<open>9\<close>.
  A float is \<open>m * 2 ^ e\<close>, an infinity or a NaN.
\<close>

datatype error = ValueError | TypeError | AttributeError | IndexError

datatype pyfloat = Finite int int | Infinite | NotANumber

datatype json =
    JNull
  | JBool bool
  | JInt int
  | JFloat pyfloat
  | JStr string
  | JList "json list"
  | JDict "(string \<times> json) list"

type_synonym obj = "(string \<times> json) list"

text \<open>A loop whose body may raise: the first error ends it.\<close>

fun map_err :: "('a \<Rightarrow> error + 'a) \<Rightarrow> 'a list \<Rightarrow> error + 'a list" where
  "map_err f [] = Inr []"
| "map_err f (x # xs) =
     (case f x of
        Inl e \<Rightarrow> Inl e
      | Inr y \<Rightarrow> (case map_err f xs of Inl e \<Rightarrow> Inl e | Inr ys \<Rightarrow> Inr (y # ys)))"

section \<open>reframe\_queue\_and\_prefixes.py\<close>

subsection \<open>The regular expression of \<^verbatim>\<open>rewrite_prefix\<close>\<close>

text \<open>
  The pattern is \<^verbatim>\<open>-(\d+)f(?=(\d+steps)?$)\<close>. A greedy \<^verbatim>\<open>\d+\<close> takes the whole run of
  digits; backing off to a shorter run cannot help, because the next character would be
  a digit where the pattern wants \<^verbatim>\<open>f\<close> (or \<^verbatim>\<open>s\<close>). Without the MULTILINE flag,
  \<^verbatim>\<open>$\<close> holds at the end of the string and also just before a newline that ends it.
\<close>

definition is_digit :: "char \<Rightarrow> bool" where
  "is_digit c = (c \<in> set ''0123456789'')"

definition at_end :: "string \<Rightarrow> bool" where
  "at_end s = (s = [] \<or> s = [CHR ''\<newline>''])"

definition lookahead :: "string \<Rightarrow> bool" where
  "lookahead s =
     ((let r = dropWhile is_digit s
       in takeWhile is_digit s \<noteq> [] \<and> take 5 r = ''steps'' \<and> at_end (drop 5 r))
      \<or> at_end s)"

text \<open>
  \<open>match_here s\<close> is the rest of \<open>s\<close> after a match that starts at its first character,
  if there is one.
\<close>

fun match_here :: "string \<Rightarrow> string option" where
  "match_here [] = None"
| "match_here (c # r) =
     (if c = CHR ''-'' \<and> takeWhile is_digit r \<noteq> [] then
        (case dropWhile is_digit r of
           [] \<Rightarrow> None
         | d # r' \<Rightarrow> if d = CHR ''f'' \<and> lookahead r' then Some r' else None)
      else None)"

text \<open>
  \<^verbatim>\<open>re.sub(pattern, repl, s)\<close>: scan from the left, replace each match by \<open>repl\<close> and
  go on after it; a character where no match starts is copied.
\<close>

function re_sub :: "string \<Rightarrow> string \<Rightarrow> string" where
  "re_sub repl [] = []"
| "re_sub repl (c # cs) =
     (case match_here (c # cs) of
        Some rest \<Rightarrow> repl @ re_sub repl rest
      | None \<Rightarrow> c # re_sub repl cs)"
  by pat_completeness auto
termination
proof (relation "measure (\<lambda>(repl, s). length s)")
  fix repl :: string and c :: char and cs rest :: string
  assume "match_here (c # cs) = Some rest"
  then obtain d where "dropWhile is_digit cs = d # rest"
    by (auto split: if_splits list.splits)
  moreover have "length (dropWhile is_digit cs) \<le> length cs"
    by (rule length_dropWhile_le)
  ultimately show "((repl, rest), (repl, c # cs)) \<in> measure (\<lambda>(repl, s). length s)"
    by simp
qed simp_all

text \<open>\<^verbatim>\<open>str(n)\<close> of an integer: its decimal digits, with a minus sign when negative.\<close>

definition digit_char :: "nat \<Rightarrow> char" where
  "digit_char n = ''0123456789'' ! n"

function dec_nat :: "nat \<Rightarrow> string" where
  "dec_nat n = (if n < 10 then [digit_char n] else dec_nat (n div 10) @ [digit_char (n mod 10)])"
  by pat_completeness auto
termination
  by (relation "measure id") auto

declare dec_nat.simps [simp del]

definition str_int :: "int \<Rightarrow> string" where
  "str_int i = (if i < 0 then CHR ''-'' # dec_nat (nat (- i)) else dec_nat (nat i))"

definition segment :: "int \<Rightarrow> string" where
  \<comment> \<open>the f-string \<^verbatim>\<open>f'-{frames}f'\<close>\<close>
  "segment frames = ''-'' @ str_int frames @ ''f''"

definition rewrite_prefix :: "json \<Rightarrow> int \<Rightarrow> json" where
  "rewrite_prefix prefix frames =
     (case prefix of
        JStr s \<Rightarrow>
          (let new = re_sub (segment frames) s
           in if new = s then JStr (s @ segment frames) else JStr new)
      | _ \<Rightarrow> prefix)"

subsection \<open>The canonical graph\<close>

definition setdefault_inputs :: "obj \<Rightarrow> obj \<times> json" where
  \<comment> \<open>\<^verbatim>\<open>node.setdefault("inputs", {})\<close>: the node afterwards and the value returned\<close>
  "setdefault_inputs node =
     (case map_of node ''inputs'' of
        Some v \<Rightarrow> (node, v)
      | None \<Rightarrow> (node @ [(''inputs'', JDict [])], JDict []))"

definition set_length :: "obj \<Rightarrow> int \<Rightarrow> error + obj" where
  \<comment> \<open>\<^verbatim>\<open>inputs["length"] = int(frames)\<close>; only a dict takes a string key\<close>
  "set_length node frames =
     (case setdefault_inputs node of
        (node1, JDict ins) \<Rightarrow>
          Inr (AList.update ''inputs'' (JDict (AList.update ''length'' (JInt frames) ins)) node1)
      | _ \<Rightarrow> Inl TypeError)"

fun contains :: "string \<Rightarrow> string \<Rightarrow> bool" where
  \<comment> \<open>\<^verbatim>\<open>sub in s\<close> on two strings\<close>
  "contains sub [] = (sub = [])"
| "contains sub (c # cs) = (take (length sub) (c # cs) = sub \<or> contains sub cs)"

definition set_prefix :: "obj \<Rightarrow> int \<Rightarrow> error + obj" where
  \<comment> \<open>\<^verbatim>\<open>"filename_prefix" in inputs\<close> is a key test on a dict, a membership test on a
      list, a substring test on a string and a TypeError on anything else; the
      subscript that follows works on a dict only\<close>
  "set_prefix node frames =
     (case setdefault_inputs node of
        (node1, JDict ins) \<Rightarrow>
          (case map_of ins ''filename_prefix'' of
             None \<Rightarrow> Inr node1
           | Some p \<Rightarrow>
               Inr (AList.update ''inputs''
                     (JDict (AList.update ''filename_prefix'' (rewrite_prefix p frames) ins)) node1))
      | (node1, JList xs) \<Rightarrow>
          if JStr ''filename_prefix'' \<in> set xs then Inl TypeError else Inr node1
      | (node1, JStr s) \<Rightarrow>
          if contains ''filename_prefix'' s then Inl TypeError else Inr node1
      | _ \<Rightarrow> Inl TypeError)"

definition fix_graph_node :: "int \<Rightarrow> json \<Rightarrow> error + json" where
  \<comment> \<open>the body of the loop of \<^verbatim>\<open>fix_graph_nodes\<close>; \<^verbatim>\<open>node.get\<close> exists on a dict only\<close>
  "fix_graph_node frames node =
     (case node of
        JDict nd \<Rightarrow>
          (case (if map_of nd ''class_type'' = Some (JStr ''EmptyHunyuanLatentVideo'')
                 then set_length nd frames else Inr nd) of
             Inl e \<Rightarrow> Inl e
           | Inr nd1 \<Rightarrow>
               (case (if map_of nd1 ''class_type'' \<in> {Some (JStr ''SaveVideo''), Some (JStr ''SaveImage'')}
                      then set_prefix nd1 frames else Inr nd1) of
                  Inl e \<Rightarrow> Inl e
                | Inr nd2 \<Rightarrow> Inr (JDict nd2)))
      | _ \<Rightarrow> Inl AttributeError)"

definition fix_graph_nodes :: "obj \<Rightarrow> int \<Rightarrow> error + obj" where
  "fix_graph_nodes graph_dict frames =
     map_err (\<lambda>(nid, node). case fix_graph_node frames node of
                              Inl e \<Rightarrow> Inl e | Inr node' \<Rightarrow> Inr (nid, node')) graph_dict"

subsection \<open>The UI mirror\<close>

definition fix_ui_node :: "int \<Rightarrow> json \<Rightarrow> error + json" where
  \<comment> \<open>the body of the loop of \<^verbatim>\<open>fix_workflow_nodes\<close>\<close>
  "fix_ui_node frames n =
     (case n of
        JDict nd \<Rightarrow>
          (case map_of nd ''widgets_values'' of
             Some (JList wv) \<Rightarrow>
               (let ntype = map_of nd ''type'';
                    wv1 = (if ntype = Some (JStr ''EmptyHunyuanLatentVideo'') \<and> 3 \<le> length wv
                           then wv[2 := JInt frames] else wv);
                    wv2 = (if ntype \<in> {Some (JStr ''SaveVideo''), Some (JStr ''SaveImage'')}
                              \<and> 1 \<le> length wv1
                           then (case wv1 ! 0 of
                                   JStr s \<Rightarrow> wv1[0 := rewrite_prefix (JStr s) frames]
                                 | _ \<Rightarrow> wv1)
                           else wv1)
                in Inr (JDict (AList.update ''widgets_values'' (JList wv2) nd)))
           | _ \<Rightarrow> Inr n)
      | _ \<Rightarrow> Inl AttributeError)"

definition fix_workflow_nodes :: "obj \<Rightarrow> int \<Rightarrow> error + obj" where
  "fix_workflow_nodes meta frames =
     (case (case map_of meta ''extra_pnginfo'' of None \<Rightarrow> JDict [] | Some v \<Rightarrow> v) of
        JDict epi \<Rightarrow>
          (case map_of epi ''workflow'' of
             Some (JDict wflow) \<Rightarrow>
               (case map_of wflow ''nodes'' of
                  Some (JList nodes) \<Rightarrow>
                    (case map_err (fix_ui_node frames) nodes of
                       Inl e \<Rightarrow> Inl e
                     | Inr nodes' \<Rightarrow>
                         Inr (AList.update ''extra_pnginfo''
                               (JDict (AList.update ''workflow''
                                 (JDict (AList.update ''nodes'' (JList nodes') wflow)) epi)) meta))
                | _ \<Rightarrow> Inr meta)
           | _ \<Rightarrow> Inr meta)
      | _ \<Rightarrow> Inl AttributeError)"

subsection \<open>Jobs and queues\<close>

definition fix_job_entry :: "int \<Rightarrow> json \<Rightarrow> error + json" where
  "fix_job_entry frames job_entry =
     (case job_entry of
        JList xs \<Rightarrow>
          (case (if 3 \<le> length xs
                 then (case xs ! 2 of
                         JDict g \<Rightarrow> (case fix_graph_nodes g frames of
                                      Inl e \<Rightarrow> Inl e | Inr g' \<Rightarrow> Inr (xs[2 := JDict g']))
                       | _ \<Rightarrow> Inr xs)
                 else Inr xs) of
             Inl e \<Rightarrow> Inl e
           | Inr xs1 \<Rightarrow>
               (if 4 \<le> length xs1
                then (case xs1 ! 3 of
                        JDict m \<Rightarrow> (case fix_workflow_nodes m frames of
                                     Inl e \<Rightarrow> Inl e | Inr m' \<Rightarrow> Inr (JList (xs1[3 := JDict m'])))
                      | _ \<Rightarrow> Inr (JList xs1))
                else Inr (JList xs1)))
      | _ \<Rightarrow> Inr job_entry)"

fun process_keys :: "string list \<Rightarrow> obj \<Rightarrow> int \<Rightarrow> error + obj" where
  \<comment> \<open>the loop over the queue names of \<^verbatim>\<open>process_saved_queue\<close>\<close>
  "process_keys [] data frames = Inr data"
| "process_keys (key # keys) data frames =
     (case map_of data key of
        Some (JList arr) \<Rightarrow>
          (case map_err (fix_job_entry frames) arr of
             Inl e \<Rightarrow> Inl e
           | Inr arr' \<Rightarrow> process_keys keys (AList.update key (JList arr') data) frames)
      | _ \<Rightarrow> process_keys keys data frames)"

definition process_saved_queue :: "obj \<Rightarrow> int \<Rightarrow> error + obj" where
  "process_saved_queue data frames =
     process_keys [''queue_running'', ''queue_pending'', ''queue_failed''] data frames"

section \<open>reseed\_queue.py\<close>

subsection \<open>The traversal generators\<close>

definition item_ok :: "json \<Rightarrow> bool" where
  \<comment> \<open>the items that \<^verbatim>\<open>iter_queue_items\<close> yields\<close>
  "item_ok item =
     (case item of
        JList xs \<Rightarrow> 3 \<le> length xs \<and> (case xs ! 2 of JDict _ \<Rightarrow> True | _ \<Rightarrow> False)
      | JDict _ \<Rightarrow> True
      | _ \<Rightarrow> False)"

definition iter_queue_items :: "obj \<Rightarrow> string list \<Rightarrow> (string \<times> nat \<times> json) list" where
  "iter_queue_items doc which =
     concat (map (\<lambda>section.
       case map_of doc section of
         Some (JList items) \<Rightarrow>
           map (\<lambda>(idx, item). (section, idx, item))
             (filter (\<lambda>(idx, item). item_ok item) (enumerate 0 items))
       | _ \<Rightarrow> []) which)"

definition is_dict :: "json \<Rightarrow> bool" where
  "is_dict v = (case v of JDict _ \<Rightarrow> True | _ \<Rightarrow> False)"

definition iter_nodes_from_item :: "json \<Rightarrow> (string \<times> json) list" where
  "iter_nodes_from_item item =
     (case item of
        JList xs \<Rightarrow>
          (if 3 \<le> length xs
           then (case xs ! 2 of
                   JDict nodes \<Rightarrow> filter (\<lambda>(nid, node). is_dict node) nodes
                 | _ \<Rightarrow> [])
           else [])
      | JDict nodes \<Rightarrow> filter (\<lambda>(nid, node). is_dict node) nodes
      | _ \<Rightarrow> [])"

subsection \<open>Seed fields\<close>

definition KSAMPLER_CLASSES :: "string list" where
  "KSAMPLER_CLASSES =
     [''KSampler'', ''KSamplerAdvanced'', ''KSampler (Efficient)'',
      ''KSamplerSDXL'', ''KSamplerTiled'', ''SamplerCustom'']"

definition float_int :: "pyfloat \<Rightarrow> int option" where
  \<comment> \<open>\<^verbatim>\<open>int(x)\<close> of a float truncates toward zero and raises on an infinity or a NaN\<close>
  "float_int x =
     (case x of
        Finite m e \<Rightarrow>
          Some (if 0 \<le> e then m * 2 ^ nat e else sgn m * (\<bar>m\<bar> div 2 ^ nat (- e)))
      | _ \<Rightarrow> None)"

definition py_int :: "(string \<Rightarrow> int option) \<Rightarrow> json \<Rightarrow> int option" where
  \<comment> \<open>\<^verbatim>\<open>int(v)\<close>, \<open>None\<close> where it raises. Python's parser of integer literals is a
      built-in of the language, not of the scripts: it is the parameter \<open>sti\<close>.\<close>
  "py_int sti v =
     (case v of
        JInt i \<Rightarrow> Some i
      | JBool b \<Rightarrow> Some (if b then 1 else 0)
      | JFloat x \<Rightarrow> float_int x
      | JStr s \<Rightarrow> sti s
      | _ \<Rightarrow> None)"

definition find_seed_fields ::
  "(string \<Rightarrow> int option) \<Rightarrow> obj \<Rightarrow> error + (string list \<times> int) list" where
  \<comment> \<open>\<^verbatim>\<open>cls in KSAMPLER_CLASSES\<close> hashes \<open>cls\<close>: a list or a dict is unhashable\<close>
  "find_seed_fields sti node =
     (case map_of node ''class_type'' of
        Some (JList _) \<Rightarrow> Inl TypeError
      | Some (JDict _) \<Rightarrow> Inl TypeError
      | Some (JStr cls) \<Rightarrow>
          (if cls \<in> set KSAMPLER_CLASSES then
             (case map_of node ''inputs'' of
                Some (JDict ins) \<Rightarrow>
                  (case map_of ins ''seed'' of
                     Some v \<Rightarrow>
                       (case py_int sti v of
                          Some val \<Rightarrow> Inr [([''inputs'', ''seed''], val)]
                        | None \<Rightarrow> Inr [])
                   | None \<Rightarrow> Inr [])
              | _ \<Rightarrow> Inr [])
           else Inr [])
      | _ \<Rightarrow> Inr [])"

fun set_path :: "json \<Rightarrow> string list \<Rightarrow> json \<Rightarrow> json" where
  \<comment> \<open>the walk of \<^verbatim>\<open>apply_seed\<close> along a non-empty path\<close>
  "set_path cur [] v = cur"
| "set_path cur [lst] v =
     (case cur of
        JDict d \<Rightarrow> if map_of d lst \<noteq> None then JDict (AList.update lst v d) else cur
      | _ \<Rightarrow> cur)"
| "set_path cur (k # ks) v =
     (case cur of
        JDict d \<Rightarrow>
          (case map_of d k of
             Some sub \<Rightarrow> JDict (AList.update k (set_path sub ks v) d)
           | None \<Rightarrow> cur)
      | _ \<Rightarrow> cur)"

definition apply_seed :: "json \<Rightarrow> string list \<Rightarrow> int \<Rightarrow> error + json" where
  \<comment> \<open>\<^verbatim>\<open>path[-1]\<close> raises on an empty path\<close>
  "apply_seed node path new_seed =
     (if path = [] then Inl IndexError else Inr (set_path node path (JInt new_seed)))"

subsection \<open>The state of one call\<close>

text \<open>
  The arguments of \<^verbatim>\<open>reseed_document\<close> that stay fixed during a call, with the two
  things the scripts take from Python: the parser behind \<^verbatim>\<open>int(str)\<close> and the
  generator behind \<^verbatim>\<open>rnd.randint(0, 2_147_483_647)\<close>, a function from the state of the
  generator to the number drawn and the next state.
\<close>

record 'r call =
  int_of_str :: "string \<Rightarrow> int option"
  randint :: "'r \<Rightarrow> int \<times> 'r"
  mode :: string
  start :: int
  step :: int
  scope :: string

text \<open>The local variables of \<^verbatim>\<open>reseed_document\<close> that change during a call.\<close>

record 'r rstate =
  nodes_touched :: nat
  seeds_changed :: nat
  seq_val :: int
  job_seed :: int
  rnd :: 'r

definition next_seq :: "'r call \<Rightarrow> 'r rstate \<Rightarrow> int \<times> 'r rstate" where
  "next_seq c st =
     (if scope c = ''job''
      then (job_seed st, st\<lparr>job_seed := job_seed st + step c\<rparr>)
      else (seq_val st, st\<lparr>seq_val := seq_val st + step c\<rparr>))"

definition new_seed_of :: "'r call \<Rightarrow> 'r rstate \<Rightarrow> error + int \<times> 'r rstate" where
  "new_seed_of c st =
     (if mode c = ''random'' then
        (case randint c (rnd st) of (v, r) \<Rightarrow> Inr (v, st\<lparr>rnd := r\<rparr>))
      else if mode c = ''increment'' then Inr (next_seq c st)
      else Inl ValueError)"

subsection \<open>The loops\<close>

text \<open>
  A loop returns the error raised, if any, the value it has mutated and the state. The
  value is returned in both cases: after an exception the caller still holds the
  document, mutated up to the point of the raise.
\<close>

fun map_st ::
  "('a \<Rightarrow> 's \<Rightarrow> error option \<times> 'a \<times> 's) \<Rightarrow> 'a list \<Rightarrow> 's \<Rightarrow> error option \<times> 'a list \<times> 's" where
  "map_st f [] st = (None, [], st)"
| "map_st f (x # xs) st =
     (case f x st of
        (Some e, y, st1) \<Rightarrow> (Some e, y # xs, st1)
      | (None, y, st1) \<Rightarrow>
          (case map_st f xs st1 of (r, ys, st2) \<Rightarrow> (r, y # ys, st2)))"

fun reseed_fields ::
  "'r call \<Rightarrow> (string list \<times> int) list \<Rightarrow> json \<Rightarrow> 'r rstate \<Rightarrow> error option \<times> json \<times> 'r rstate" where
  "reseed_fields c [] node st = (None, node, st)"
| "reseed_fields c ((path, cur_seed) # flds) node st =
     (case new_seed_of c st of
        Inl e \<Rightarrow> (Some e, node, st)
      | Inr (new_seed, st1) \<Rightarrow>
          (if new_seed \<noteq> cur_seed then
             (case apply_seed node path new_seed of
                Inl e \<Rightarrow> (Some e, node, st1)
              | Inr node1 \<Rightarrow>
                  reseed_fields c flds node1 (st1\<lparr>seeds_changed := seeds_changed st1 + 1\<rparr>))
           else reseed_fields c flds node st1))"

definition reseed_node ::
  "'r call \<Rightarrow> json \<Rightarrow> 'r rstate \<Rightarrow> error option \<times> json \<times> 'r rstate" where
  \<comment> \<open>one entry of a Node-Map: skipped unless a dict, then the body of the node loop\<close>
  "reseed_node c node st =
     (case node of
        JDict nd \<Rightarrow>
          (case find_seed_fields (int_of_str c) nd of
             Inl e \<Rightarrow> (Some e, node, st)
           | Inr flds \<Rightarrow>
               if flds = [] then (None, node, st)
               else reseed_fields c flds node (st\<lparr>nodes_touched := nodes_touched st + 1\<rparr>))
      | _ \<Rightarrow> (None, node, st))"

definition reseed_nodes ::
  "'r call \<Rightarrow> obj \<Rightarrow> 'r rstate \<Rightarrow> error option \<times> obj \<times> 'r rstate" where
  "reseed_nodes c nodes st =
     map_st (\<lambda>(nid, node) s. case reseed_node c node s of (r, node', s') \<Rightarrow> (r, (nid, node'), s'))
       nodes st"

definition reseed_item ::
  "'r call \<Rightarrow> json \<Rightarrow> 'r rstate \<Rightarrow> error option \<times> json \<times> 'r rstate" where
  \<comment> \<open>one entry of a queue: skipped unless \<^verbatim>\<open>iter_queue_items\<close> yields it, then the body
      of the job loop, which starts with \<^verbatim>\<open>job_seed = start\<close>\<close>
  "reseed_item c item st =
     (case item of
        JList xs \<Rightarrow>
          (if 3 \<le> length xs then
             (case xs ! 2 of
                JDict nodes \<Rightarrow>
                  (case reseed_nodes c nodes (st\<lparr>job_seed := start c\<rparr>) of
                     (r, nodes', st') \<Rightarrow> (r, JList (xs[2 := JDict nodes']), st'))
              | _ \<Rightarrow> (None, item, st))
           else (None, item, st))
      | JDict nodes \<Rightarrow>
          (case reseed_nodes c nodes (st\<lparr>job_seed := start c\<rparr>) of
             (r, nodes', st') \<Rightarrow> (r, JDict nodes', st'))
      | _ \<Rightarrow> (None, item, st))"

definition reseed_section ::
  "'r call \<Rightarrow> string \<Rightarrow> obj \<Rightarrow> 'r rstate \<Rightarrow> error option \<times> obj \<times> 'r rstate" where
  "reseed_section c section doc st =
     (case map_of doc section of
        Some (JList items) \<Rightarrow>
          (case map_st (reseed_item c) items st of
             (r, items', st') \<Rightarrow> (r, AList.update section (JList items') doc, st'))
      | _ \<Rightarrow> (None, doc, st))"

fun reseed_sections ::
  "'r call \<Rightarrow> string list \<Rightarrow> obj \<Rightarrow> 'r rstate \<Rightarrow> error option \<times> obj \<times> 'r rstate" where
  "reseed_sections c [] doc st = (None, doc, st)"
| "reseed_sections c (section # sections) doc st =
     (case reseed_section c section doc st of
        (Some e, doc1, st1) \<Rightarrow> (Some e, doc1, st1)
      | (None, doc1, st1) \<Rightarrow> reseed_sections c sections doc1 st1)"

definition valid_sections :: "string list option \<Rightarrow> string list" where
  \<comment> \<open>\<^verbatim>\<open>("queue_running","queue_pending") if not only_sections else tuple(only_sections)\<close>\<close>
  "valid_sections only_sections =
     (case only_sections of
        None \<Rightarrow> [''queue_running'', ''queue_pending'']
      | Some [] \<Rightarrow> [''queue_running'', ''queue_pending'']
      | Some ss \<Rightarrow> ss)"

definition init_state :: "'r call \<Rightarrow> 'r \<Rightarrow> 'r rstate" where
  "init_state c rnd0 =
     \<lparr>nodes_touched = 0, seeds_changed = 0, seq_val = start c, job_seed = start c, rnd = rnd0\<rparr>"

text \<open>
  \<open>reseed_document\<close> either raises, \<open>Inl\<close> with the error and the document as the raise
  left it, or returns, \<open>Inr\<close> with the document and the pair
  \<^verbatim>\<open>(nodes_touched, seeds_changed)\<close>. \<open>rnd0\<close> is the generator that
  \<^verbatim>\<open>random.Random(rng_seed)\<close> makes.
\<close>

definition reseed_document ::
  "'r call \<Rightarrow> 'r \<Rightarrow> obj \<Rightarrow> string list option \<Rightarrow> error \<times> obj + obj \<times> nat \<times> nat" where
  "reseed_document c rnd0 doc only_sections =
     (case reseed_sections c (valid_sections only_sections) doc (init_state c rnd0) of
        (Some e, doc', st) \<Rightarrow> Inl (e, doc')
      | (None, doc', st) \<Rightarrow> Inr (doc', nodes_touched st, seeds_changed st))"

section \<open>Reading a document as the traversal does\<close>

text \<open>
  The nodes the generators of reseed\_queue.py yield, in the order of the traversal, and
  among them the nodes with a seed field that \<^verbatim>\<open>find_seed_fields\<close> reports (a node has
  at most one). They are what the properties of \<^verbatim>\<open>reseed_document\<close> are stated with:
  the seeds a call has assigned are read off the document it returns.
\<close>

definition item_nodes :: "json \<Rightarrow> json list" where
  "item_nodes item = map snd (iter_nodes_from_item item)"

definition traversed_nodes :: "obj \<Rightarrow> string list \<Rightarrow> json list" where
  "traversed_nodes doc which =
     concat (map (\<lambda>(section, idx, item). item_nodes item) (iter_queue_items doc which))"

definition eligible :: "(string \<Rightarrow> int option) \<Rightarrow> json \<Rightarrow> bool" where
  "eligible sti node =
     (case node of
        JDict nd \<Rightarrow> (case find_seed_fields sti nd of Inr (f # fs) \<Rightarrow> True | _ \<Rightarrow> False)
      | _ \<Rightarrow> False)"


definition eligible_nodes :: "(string \<Rightarrow> int option) \<Rightarrow> obj \<Rightarrow> string list \<Rightarrow> json list" where
  "eligible_nodes sti doc which = filter (eligible sti) (traversed_nodes doc which)"

text \<open>The same nodes, by Node-Map and by section.\<close>

definition dict_nodes :: "obj \<Rightarrow> json list" where
  "dict_nodes nodes = map snd (filter (\<lambda>(nid, node). is_dict node) nodes)"

definition section_nodes :: "obj \<Rightarrow> string \<Rightarrow> json list" where
  "section_nodes doc section =
     (case map_of doc section of
        Some (JList items) \<Rightarrow> concat (map item_nodes items)
      | _ \<Rightarrow> [])"





text \<open>
  A node whose \<^verbatim>\<open>class_type\<close> is a list or a dict makes \<^verbatim>\<open>find_seed_fields\<close> raise
  TypeError. \<open>bad_ok\<close> is what a part of the traversal leaves behind when the mode is
  neither \<^verbatim>\<open>random\<close> nor \<^verbatim>\<open>increment\<close>, from the nodes \<open>ns\<close> it had to visit.
\<close>

definition unhashable_class :: "(string \<Rightarrow> int option) \<Rightarrow> json \<Rightarrow> bool" where
  "unhashable_class sti node =
     (case node of JDict nd \<Rightarrow> find_seed_fields sti nd = Inl TypeError | _ \<Rightarrow> False)"

definition stop_error :: "(string \<Rightarrow> int option) \<Rightarrow> json list \<Rightarrow> error option" where
  \<comment> \<open>the first of the nodes \<open>ns\<close> at which such a call raises, and with what: TypeError at
      a node whose class cannot be hashed, ValueError at a node with an eligible seed field\<close>
  "stop_error sti ns =
     (case find (\<lambda>n. unhashable_class sti n \<or> eligible sti n) ns of
        None \<Rightarrow> None
      | Some n \<Rightarrow> Some (if unhashable_class sti n then TypeError else ValueError))"

definition bad_ok :: "'r call \<Rightarrow> json list \<Rightarrow> error option \<Rightarrow> 'r rstate \<Rightarrow> 'r rstate \<Rightarrow> bool" where
  "bad_ok c ns r st st' =
     (stop_error (int_of_str c) ns = r
      \<and> (r = None \<longrightarrow>
            nodes_touched st' = nodes_touched st \<and> seeds_changed st' = seeds_changed st))"

section \<open>Documents used as examples\<close>

definition save_doc :: "string \<Rightarrow> obj" where
  \<comment> \<open>one pending job whose graph has one SaveVideo node with the given prefix\<close>
  "save_doc p =
     [(''queue_pending'',
        JList [JList [JInt 0, JStr ''job-1'',
          JDict [(''9'', JDict [(''class_type'', JStr ''SaveVideo''),
                               (''inputs'', JDict [(''filename_prefix'', JStr p)])])]]])]"

definition stray_doc :: obj where
  \<comment> \<open>one pending job whose Node-Map has an entry that is a string\<close>
  "stray_doc =
     [(''queue_pending'', JList [JList [JInt 0, JStr ''job-1'', JDict [(''1'', JStr ''oops'')]]])]"

definition sizing_graph :: "int \<Rightarrow> obj" where
  "sizing_graph n =
     [(''5'', JDict [(''class_type'', JStr ''EmptyHunyuanLatentVideo''),
                    (''inputs'', JDict [(''length'', JInt n)])])]"

definition ui_meta :: "string \<Rightarrow> obj" where
  \<comment> \<open>metadata whose UI mirror has one SaveVideo node with the given prefix\<close>
  "ui_meta p =
     [(''extra_pnginfo'',
        JDict [(''workflow'',
          JDict [(''nodes'',
            JList [JDict [(''type'', JStr ''SaveVideo''),
                          (''widgets_values'', JList [JStr p])]])])])]"

definition no_graph_doc :: "string \<Rightarrow> obj" where
  \<comment> \<open>one pending job, a list with \<^verbatim>\<open>None\<close> at index 2 and metadata at index 3\<close>
  "no_graph_doc p =
     [(''queue_pending'', JList [JList [JInt 0, JStr ''job-1'', JNull, JDict (ui_meta p)]])]"

definition inc_call :: "string \<Rightarrow> nat call" where
  \<comment> \<open>\<^verbatim>\<open>mode="increment", start=10, step=5\<close> with the given scope; the generator is a
      counter and no string parses as an integer\<close>
  "inc_call sc =
     \<lparr>int_of_str = (\<lambda>s. None), randint = (\<lambda>r. (int r, Suc r)),
      mode = ''increment'', start = 10, step = 5, scope = sc\<rparr>"

definition sampler :: "int \<Rightarrow> json" where
  "sampler s =
     JDict [(''class_type'', JStr ''KSampler''),
            (''inputs'', JDict [(''seed'', JInt s), (''steps'', JInt 20)])]"

definition sampler_job :: "int \<Rightarrow> int \<Rightarrow> json" where
  \<comment> \<open>a job with two sampler nodes, of the given seeds, around a node that is no sampler\<close>
  "sampler_job s1 s2 =
     JList [JInt 0, JStr ''job'',
       JDict [(''3'', sampler s1),
              (''7'', JDict [(''class_type'', JStr ''SaveVideo'')]),
              (''8'', sampler s2)],
       JDict []]"

definition two_jobs :: "int \<Rightarrow> int \<Rightarrow> int \<Rightarrow> int \<Rightarrow> obj" where
  \<comment> \<open>a running job and a pending job\<close>
  "two_jobs a b c d =
     [(''queue_running'', JList [sampler_job a b]), (''queue_pending'', JList [sampler_job c d])]"

section \<open>The frame and prefix rewriter\<close>

text \<open>
  C7 (code differs). \<^verbatim>\<open>rewrite_prefix\<close> gives the three results the specification lists,
  but it takes "the substitution changed nothing" for "there was no segment": on a prefix
  that already ends with the segment of the same frame count it appends a second one.
\<close>

theorem rewrite_prefix_cases:
  "rewrite_prefix (JStr ''clip-81f'') 145 = JStr ''clip-145f''
   \<and> rewrite_prefix (JStr ''clip-81f24steps'') 145 = JStr ''clip-145f24steps''
   \<and> rewrite_prefix (JStr ''clip'') 145 = JStr ''clip-145f''
   \<and> rewrite_prefix (JStr ''clip-145f'') 145 = JStr ''clip-145f-145f''"
  by code_simp

text \<open>
  C1 (code differs). The rewrite is not idempotent: a second run with the same frame count
  changes the document the first run returned.
\<close>

theorem rewrite_twice_differs:
  "process_saved_queue (save_doc ''clip'') 145 = Inr (save_doc ''clip-145f'')
   \<and> process_saved_queue (save_doc ''clip-145f'') 145 = Inr (save_doc ''clip-145f-145f'')"
  by code_simp

text \<open>
  C9 (code differs). A Node-Map entry that is not a mapping makes the rewriter raise
  AttributeError, where the seed reassigner skips the entry and returns.
\<close>

theorem rewrite_raises_on_stray_node:
  "process_saved_queue stray_doc 145 = Inl AttributeError
   \<and> reseed_document (inc_call ''global'') 0 stray_doc None = Inr (stray_doc, 0, 0)"
  by code_simp

lemma map_err_bare_maps:
  "\<forall>j \<in> set arr. is_dict j \<Longrightarrow> map_err (fix_job_entry frames) arr = Inr arr"
  by (induction arr) (auto simp: fix_job_entry_def is_dict_def split: json.splits)

lemma process_keys_bare_maps:
  "(\<And>key arr. key \<in> set keys \<Longrightarrow> map_of data key = Some (JList arr) \<Longrightarrow> \<forall>j \<in> set arr. is_dict j)
     \<Longrightarrow> process_keys keys data frames = Inr data"
proof (induction keys)
  case Nil
  show ?case by simp
next
  case (Cons key keys)
  have tl: "process_keys keys data frames = Inr data"
    by (rule Cons.IH) (use Cons.prems in auto)
  show ?case
  proof (cases "map_of data key")
    case None
    with tl show ?thesis by simp
  next
    case (Some v)
    show ?thesis
    proof (cases v)
      case (JList arr)
      with Some have "map_of data key = Some (JList arr)" by simp
      then have "\<forall>j \<in> set arr. is_dict j"
        by (rule Cons.prems[rotated]) simp
      then have "map_err (fix_job_entry frames) arr = Inr arr"
        by (rule map_err_bare_maps)
      moreover have "AList.update key (JList arr) data = data"
        using Some JList by (simp add: update_triv)
      ultimately show ?thesis using Some JList tl by simp
    qed (use Some tl in simp_all)
  qed
qed

text \<open>
  C4, the claim as stated fails: on a pending job that is a bare Node-Map the canonical
  pass would set the length to 145, and the rewriter returns the document with 81.
\<close>

theorem rewrite_bare_node_map_counterexample:
  "fix_graph_nodes (sizing_graph 81) 145 = Inr (sizing_graph 145)
   \<and> process_saved_queue [(''queue_pending'', JList [JDict (sizing_graph 81)])] 145
       = Inr [(''queue_pending'', JList [JDict (sizing_graph 81)])]"
  by code_simp

text \<open>
  C4, amended. \<^verbatim>\<open>fix_job_entry\<close> returns at once on a job that is not a list: a job that
  is a bare Node-Map is left as it is, and a document whose three queue sections hold only
  such jobs, whatever its other keys hold, is returned unchanged.
\<close>

theorem rewrite_skips_bare_node_map:
  "fix_job_entry frames (JDict g) = Inr (JDict g)
   \<and> ((\<forall>key \<in> set [''queue_running'', ''queue_pending'', ''queue_failed''].
          \<forall>arr. map_of data key = Some (JList arr) \<longrightarrow> (\<forall>j \<in> set arr. is_dict j))
        \<longrightarrow> process_saved_queue data frames = Inr data)"
proof -
  have "fix_job_entry frames (JDict g) = Inr (JDict g)"
    by (simp add: fix_job_entry_def)
  moreover have "process_saved_queue data frames = Inr data"
    if "\<forall>key \<in> set [''queue_running'', ''queue_pending'', ''queue_failed''].
          \<forall>arr. map_of data key = Some (JList arr) \<longrightarrow> (\<forall>j \<in> set arr. is_dict j)"
    unfolding process_saved_queue_def using that by (intro process_keys_bare_maps) blast
  ultimately show ?thesis by blast
qed

theorem rewrite_skips_bare_node_map_witness:
  "fix_job_entry 145 (JDict (sizing_graph 81)) = Inr (JDict (sizing_graph 81))
   \<and> process_saved_queue
        [(''queue_pending'', JList [JDict (sizing_graph 81)]), (''history'', JList [JInt 1])] 145
       = Inr [(''queue_pending'', JList [JDict (sizing_graph 81)]), (''history'', JList [JInt 1])]"
proof -
  have "\<forall>key \<in> set [''queue_running'', ''queue_pending'', ''queue_failed''].
          \<forall>arr. map_of [(''queue_pending'', JList [JDict (sizing_graph 81)]),
                          (''history'', JList [JInt 1])] key = Some (JList arr)
            \<longrightarrow> (\<forall>j \<in> set arr. is_dict j)"
    by (auto simp: is_dict_def)
  with rewrite_skips_bare_node_map
    [of 145 "sizing_graph 81"
        "[(''queue_pending'', JList [JDict (sizing_graph 81)]), (''history'', JList [JInt 1])]"]
  show ?thesis by blast
qed

text \<open>
  C3, the claim as stated fails: the job is a list with \<^verbatim>\<open>None\<close> at index 2, and the
  rewriter still rewrites the prefix in the metadata at index 3.
\<close>

theorem rewrite_touches_meta_counterexample:
  "process_saved_queue (no_graph_doc ''clip'') 145 = Inr (no_graph_doc ''clip-145f'')"
  by code_simp

text \<open>
  C3, amended. For a job that is a list whose element at index 2 is not a mapping, the seed
  reassigner skips the job: \<^verbatim>\<open>iter_queue_items\<close> does not yield it, it has no nodes and
  it stays as it is. The rewriter skips the canonical pass only: it runs the UI-mirror
  pass on a mapping at index 3, and changes nothing else of the job.
\<close>

theorem job_without_graph:
  assumes "3 \<le> length xs" and "\<not> is_dict (xs ! 2)"
  shows "\<not> item_ok (JList xs)
    \<and> iter_nodes_from_item (JList xs) = []
    \<and> reseed_item c (JList xs) st = (None, JList xs, st)
    \<and> fix_job_entry frames (JList xs) =
          (if 4 \<le> length xs then
             (case xs ! 3 of
                JDict m \<Rightarrow> (case fix_workflow_nodes m frames of
                              Inl e \<Rightarrow> Inl e | Inr m' \<Rightarrow> Inr (JList (xs[3 := JDict m'])))
              | _ \<Rightarrow> Inr (JList xs))
           else Inr (JList xs))"
  using assms
  by (auto simp: item_ok_def iter_nodes_from_item_def reseed_item_def fix_job_entry_def
      is_dict_def split: json.splits)

theorem job_without_graph_witness:
  "\<not> item_ok (JList [JInt 0, JStr ''job-1'', JNull, JDict (ui_meta ''clip'')])
   \<and> iter_nodes_from_item (JList [JInt 0, JStr ''job-1'', JNull, JDict (ui_meta ''clip'')]) = []
   \<and> reseed_item (inc_call ''global'') (JList [JInt 0, JStr ''job-1'', JNull, JDict (ui_meta ''clip'')])
        (init_state (inc_call ''global'') 0)
       = (None, JList [JInt 0, JStr ''job-1'', JNull, JDict (ui_meta ''clip'')],
          init_state (inc_call ''global'') 0)
   \<and> fix_job_entry 145 (JList [JInt 0, JStr ''job-1'', JNull, JDict (ui_meta ''clip'')])
       = Inr (JList [JInt 0, JStr ''job-1'', JNull, JDict (ui_meta ''clip-145f'')])"
proof -
  have m: "fix_workflow_nodes (ui_meta ''clip'') 145 = Inr (ui_meta ''clip-145f'')"
    by code_simp
  show ?thesis
    using job_without_graph
      [of "[JInt 0, JStr ''job-1'', JNull, JDict (ui_meta ''clip'')]"
          "inc_call ''global''" "init_state (inc_call ''global'') 0" 145]
    by (simp add: is_dict_def m)
qed

section \<open>The seed reassigner\<close>

subsection \<open>One node\<close>

lemma find_seed_fields_shape:
  "find_seed_fields sti nd = Inr fs \<Longrightarrow>
     fs = [] \<or> (\<exists>ins sv v. map_of nd ''inputs'' = Some (JDict ins) \<and> map_of ins ''seed'' = Some sv
                \<and> py_int sti sv = Some v \<and> fs = [([''inputs'', ''seed''], v)])"
  by (auto simp: find_seed_fields_def split: option.splits json.splits if_splits)

lemma find_seed_fields_error:
  "find_seed_fields sti nd = Inl e \<Longrightarrow> e = TypeError"
  by (auto simp: find_seed_fields_def split: option.splits json.splits if_splits)



subsection \<open>Composing the loops\<close>






lemma dict_nodes_concat:
  "dict_nodes nodes = concat (map (\<lambda>(nid, node). filter is_dict [node]) nodes)"
  by (induction nodes) (auto simp: dict_nodes_def)

lemma item_nodes_simps:
  "item_nodes (JDict nodes) = dict_nodes nodes"
  "3 \<le> length xs \<Longrightarrow> xs ! 2 = JDict nodes \<Longrightarrow> item_nodes (JList xs) = dict_nodes nodes"
  "\<not> item_ok item \<Longrightarrow> item_nodes item = []"
  by (auto simp: item_nodes_def iter_nodes_from_item_def dict_nodes_def item_ok_def
      split: json.splits)

lemma concat_map_filter_empty:
  "(\<And>x. x \<in> set xs \<Longrightarrow> \<not> P x \<Longrightarrow> f x = []) \<Longrightarrow> concat (map f (filter P xs)) = concat (map f xs)"
  by (induction xs) auto

lemma section_items_nodes:
  "concat (map ((\<lambda>(section, idx, item). item_nodes item) \<circ> Pair s)
     (filter (\<lambda>(idx, item). item_ok item) (enumerate n items)))
   = concat (map item_nodes items)"
  by (induction items arbitrary: n) (simp_all add: item_nodes_simps)

lemma traversed_nodes_sections:
  "traversed_nodes doc which = concat (map (section_nodes doc) which)"
proof (induction which)
  case Nil
  show ?case by (simp add: traversed_nodes_def iter_queue_items_def)
next
  case (Cons s ss)
  have "traversed_nodes doc (s # ss) = section_nodes doc s @ traversed_nodes doc ss"
    unfolding traversed_nodes_def iter_queue_items_def section_nodes_def
    by (simp add: section_items_nodes split: option.splits json.splits)
  with Cons show ?case by simp
qed









lemma reseed_section_cases:
  assumes "reseed_section c s doc st = (r, doc1, st1)"
  obtains (skip) "\<forall>items. map_of doc s \<noteq> Some (JList items)" "doc1 = doc" "st1 = st" "r = None"
  | (queue) items items' where "map_of doc s = Some (JList items)"
      "map_st (reseed_item c) items st = (r, items', st1)"
      "doc1 = AList.update s (JList items') doc"
  using assms
  by (auto simp: reseed_section_def split: option.splits json.splits prod.splits)












subsection \<open>Counters and sequences\<close>





subsection \<open>The counter of a job\<close>
















subsection \<open>An unknown mode\<close>

lemma stop_error_append:
  "stop_error sti (ns1 @ ns2) =
     (case stop_error sti ns1 of None \<Rightarrow> stop_error sti ns2 | Some e \<Rightarrow> Some e)"
  by (induction ns1) (simp_all add: stop_error_def)

lemma stop_error_hashable:
  "\<not> list_ex (unhashable_class sti) ns \<Longrightarrow>
     stop_error sti ns = (if filter (eligible sti) ns = [] then None else Some ValueError)"
  by (induction ns) (auto simp: stop_error_def)

lemma bad_ok_nil: "bad_ok c [] None st st"
  by (simp add: bad_ok_def stop_error_def)

lemma bad_ok_seq:
  "bad_ok c ns1 None st st1 \<Longrightarrow> bad_ok c ns2 r st1 st2 \<Longrightarrow> bad_ok c (ns1 @ ns2) r st st2"
  by (auto simp: bad_ok_def stop_error_append)

lemma bad_ok_stop:
  "bad_ok c ns1 (Some e) st st1 \<Longrightarrow> bad_ok c (ns1 @ ns2) (Some e) st st1"
  by (auto simp: bad_ok_def stop_error_append)

lemma bad_ok_job_seed: "bad_ok c ns r (st\<lparr>job_seed := x\<rparr>) st' = bad_ok c ns r st st'"
  by (simp add: bad_ok_def)

lemma map_st_bad:
  assumes step: "\<And>x y r s s'. f x s = (r, y, s') \<Longrightarrow> y = x \<and> bad_ok c (g x) r s s'"
    and run: "map_st f xs st = (r, ys, st')"
  shows "ys = xs \<and> bad_ok c (concat (map g xs)) r st st'"
  using run
proof (induction xs arbitrary: st ys)
  case Nil
  then show ?case by (simp add: bad_ok_nil)
next
  case (Cons x xs)
  obtain r1 y s1 where fx: "f x st = (r1, y, s1)" by (cases "f x st")
  note 1 = step[OF fx]
  show ?case
  proof (cases r1)
    case None
    with Cons.prems fx obtain zs where rest: "map_st f xs s1 = (r, zs, st')" and ys: "ys = y # zs"
      by (auto split: prod.splits)
    from Cons.IH[OF rest] 1 None ys show ?thesis
      by (auto intro: bad_ok_seq)
  next
    case (Some e)
    with Cons.prems fx have "r = Some e" "ys = y # xs" "st' = s1" by simp_all
    with 1 Some show ?thesis by (auto intro: bad_ok_stop)
  qed
qed

lemma reseed_node_bad:
  assumes "mode c \<noteq> ''random''" and "mode c \<noteq> ''increment''"
    and "reseed_node c node st = (r, node', st')"
  shows "node' = node \<and> bad_ok c (filter is_dict [node]) r st st'"
proof (cases node)
  case (JDict nd)
  show ?thesis
  proof (cases "find_seed_fields (int_of_str c) nd")
    case (Inl e)
    with find_seed_fields_error[OF Inl] assms(3) JDict show ?thesis
      by (auto simp: reseed_node_def bad_ok_def stop_error_def unhashable_class_def is_dict_def)
  next
    case (Inr fs)
    from find_seed_fields_shape[OF Inr] consider "fs = []" | v where "fs = [([''inputs'', ''seed''], v)]"
      by blast
    then show ?thesis
    proof cases
      case 1
      with assms(3) JDict Inr show ?thesis
        by (auto simp: reseed_node_def bad_ok_def stop_error_def unhashable_class_def eligible_def is_dict_def)
    next
      case 2
      have "new_seed_of c s = Inl ValueError" for s
        using assms(1,2) by (simp add: new_seed_of_def)
      with assms(3) JDict Inr 2 show ?thesis
        by (auto simp: reseed_node_def bad_ok_def stop_error_def unhashable_class_def eligible_def is_dict_def)
    qed
  qed
qed (use assms(3) in \<open>auto simp: reseed_node_def bad_ok_def stop_error_def is_dict_def\<close>)

lemma reseed_nodes_bad:
  assumes "mode c \<noteq> ''random''" and "mode c \<noteq> ''increment''"
    and "reseed_nodes c nodes st = (r, nodes', st')"
  shows "nodes' = nodes \<and> bad_ok c (dict_nodes nodes) r st st'"
  unfolding dict_nodes_concat
proof (rule map_st_bad[OF _ assms(3)[unfolded reseed_nodes_def]])
  fix x y :: "string \<times> json" and r and s s' :: "'a rstate"
  assume a: "(case x of (nid, node) \<Rightarrow> \<lambda>s. case reseed_node c node s of
                (r, node', s') \<Rightarrow> (r, (nid, node'), s')) s = (r, y, s')"
  obtain nid node where x: "x = (nid, node)" by (cases x)
  from a x obtain node' where "reseed_node c node s = (r, node', s')" and y: "y = (nid, node')"
    by (auto split: prod.splits)
  from reseed_node_bad[OF assms(1,2) this(1)] x y
  show "y = x \<and> bad_ok c (case x of (nid, node) \<Rightarrow> filter is_dict [node]) r s s'"
    by simp
qed

lemma reseed_item_bad:
  assumes "mode c \<noteq> ''random''" and "mode c \<noteq> ''increment''"
    and "reseed_item c item st = (r, item', st')"
  shows "item' = item \<and> bad_ok c (item_nodes item) r st st'"
proof (cases item)
  case (JDict nodes)
  with assms(3) obtain nodes' where
    rn: "reseed_nodes c nodes (st\<lparr>job_seed := start c\<rparr>) = (r, nodes', st')" and i: "item' = JDict nodes'"
    by (auto simp: reseed_item_def split: prod.splits)
  from reseed_nodes_bad[OF assms(1,2) rn] i JDict show ?thesis
    by (simp add: item_nodes_simps bad_ok_job_seed)
next
  case (JList xs)
  show ?thesis
  proof (cases "3 \<le> length xs \<and> is_dict (xs ! 2)")
    case True
    then obtain nodes where n: "xs ! 2 = JDict nodes" and l: "3 \<le> length xs"
      by (cases "xs ! 2") (simp_all add: is_dict_def)
    with assms(3) JList obtain nodes' where
      rn: "reseed_nodes c nodes (st\<lparr>job_seed := start c\<rparr>) = (r, nodes', st')"
      and i': "item' = JList (xs[2 := JDict nodes'])"
      by (auto simp: reseed_item_def split: prod.splits)
    from reseed_nodes_bad[OF assms(1,2) rn] have e: "nodes' = nodes"
      and b: "bad_ok c (dict_nodes nodes) r st st'"
      by (simp_all add: bad_ok_job_seed)
    from e i' n have "item' = JList xs"
      by (metis list_update_id)
    with b JList n l show ?thesis by (simp add: item_nodes_simps)
  next
    case False
    with assms(3) JList have "\<not> item_ok item" "item' = item" "st' = st" "r = None"
      by (auto simp: reseed_item_def item_ok_def is_dict_def split: json.splits)
    then show ?thesis by (simp add: item_nodes_simps bad_ok_nil)
  qed
qed (use assms(3) in \<open>auto simp: reseed_item_def item_ok_def item_nodes_simps bad_ok_nil\<close>)

lemma reseed_section_bad:
  assumes "mode c \<noteq> ''random''" and "mode c \<noteq> ''increment''"
    and "reseed_section c s doc st = (r, doc1, st1)"
  shows "doc1 = doc \<and> bad_ok c (section_nodes doc s) r st st1"
  using assms(3)
proof (cases rule: reseed_section_cases)
  case skip
  then have "section_nodes doc s = []"
    by (auto simp: section_nodes_def split: option.splits json.splits)
  with skip show ?thesis by (simp add: bad_ok_nil)
next
  case (queue items items')
  from map_st_bad[of "reseed_item c" c item_nodes, OF reseed_item_bad[OF assms(1,2)] queue(2)]
  have "items' = items" and b: "bad_ok c (concat (map item_nodes items)) r st st1"
    by simp_all
  with queue have "doc1 = doc" by (simp add: update_triv)
  with b queue(1) show ?thesis by (simp add: section_nodes_def)
qed

lemma reseed_sections_bad:
  assumes "mode c \<noteq> ''random''" and "mode c \<noteq> ''increment''"
    and "reseed_sections c ss doc st = (r, doc', st')"
  shows "doc' = doc \<and> bad_ok c (traversed_nodes doc ss) r st st'"
  using assms(3)
proof (induction ss arbitrary: st)
  case Nil
  then show ?case by (simp add: traversed_nodes_sections bad_ok_nil)
next
  case (Cons s ss)
  obtain r1 doc1 st1 where 1: "reseed_section c s doc st = (r1, doc1, st1)"
    by (cases "reseed_section c s doc st")
  from reseed_section_bad[OF assms(1,2) 1] have d: "doc1 = doc"
    and b: "bad_ok c (section_nodes doc s) r1 st st1" by simp_all
  show ?case
  proof (cases r1)
    case None
    with Cons.prems 1 d have "reseed_sections c ss doc st1 = (r, doc', st')" by simp
    from Cons.IH[OF this] b None show ?thesis
      by (auto simp: traversed_nodes_sections intro: bad_ok_seq)
  next
    case (Some e)
    with Cons.prems 1 d have "r = Some e" "doc' = doc" "st' = st1" by simp_all
    with b Some show ?thesis
      by (auto simp: traversed_nodes_sections intro: bad_ok_stop)
  qed
qed

lemma two_jobs_bogus:
  "reseed_document (inc_call ''global''\<lparr>mode := ''bogus''\<rparr>) 0 (two_jobs 1 15 2 3) None
     = Inl (ValueError, two_jobs 1 15 2 3)"
  by code_simp

text \<open>
  C2, the claim as stated fails: with an unknown mode and a document that has no eligible
  seed field, here one job with a SaveVideo node only, the call returns \<open>(0, 0)\<close>.
\<close>

theorem reseed_unknown_mode_returns:
  "reseed_document (inc_call ''global''\<lparr>mode := ''bogus''\<rparr>) 0 (save_doc ''clip'') None
     = Inr (save_doc ''clip'', 0, 0)"
  by code_simp

text \<open>
  C2, amended. With a mode that is neither \<^verbatim>\<open>random\<close> nor \<^verbatim>\<open>increment\<close> the document
  is never changed, and the mode is looked at only when a seed is to be computed: the call
  stops at the first node it cannot pass, and returns \<open>(0, 0)\<close> when there is none. So,
  when every class of the traversed nodes can be hashed, it raises ValueError if the
  traversal finds an eligible seed field, at the first one, and returns \<open>(0, 0)\<close> if not.
\<close>

theorem reseed_unknown_mode:
  assumes "mode c \<noteq> ''random''" and "mode c \<noteq> ''increment''"
  shows "reseed_document c rnd0 doc only_sections =
           (case stop_error (int_of_str c) (traversed_nodes doc (valid_sections only_sections)) of
              None \<Rightarrow> Inr (doc, 0, 0)
            | Some e \<Rightarrow> Inl (e, doc))
    \<and> (\<not> list_ex (unhashable_class (int_of_str c))
             (traversed_nodes doc (valid_sections only_sections)) \<longrightarrow>
          reseed_document c rnd0 doc only_sections =
            (if eligible_nodes (int_of_str c) doc (valid_sections only_sections) = []
             then Inr (doc, 0, 0) else Inl (ValueError, doc)))"
proof -
  obtain r doc' st' where
    1: "reseed_sections c (valid_sections only_sections) doc (init_state c rnd0) = (r, doc', st')"
    by (cases "reseed_sections c (valid_sections only_sections) doc (init_state c rnd0)")
  from reseed_sections_bad[OF assms 1] have d: "doc' = doc"
    and b: "bad_ok c (traversed_nodes doc (valid_sections only_sections)) r (init_state c rnd0) st'"
    by simp_all
  have A: "reseed_document c rnd0 doc only_sections =
           (case stop_error (int_of_str c) (traversed_nodes doc (valid_sections only_sections)) of
              None \<Rightarrow> Inr (doc, 0, 0)
            | Some e \<Rightarrow> Inl (e, doc))"
  proof (cases r)
    case None
    with 1 d b show ?thesis
      by (simp add: reseed_document_def bad_ok_def init_state_def)
  next
    case (Some e)
    with 1 d b show ?thesis
      by (simp add: reseed_document_def bad_ok_def)
  qed
  show ?thesis
    unfolding A eligible_nodes_def by (simp add: stop_error_hashable)
qed

lemma two_jobs_stop:
  "stop_error (\<lambda>s. None) (traversed_nodes (two_jobs 1 15 2 3) [''queue_running'', ''queue_pending''])
     = Some ValueError"
  by code_simp

theorem reseed_unknown_mode_witness:
  "reseed_document (inc_call ''global''\<lparr>mode := ''bogus''\<rparr>) 0 (two_jobs 1 15 2 3) None
     = Inl (ValueError, two_jobs 1 15 2 3)
   \<and> list_all (\<lambda>n. \<not> unhashable_class (\<lambda>s. None) n)
        (traversed_nodes (two_jobs 1 15 2 3) [''queue_running'', ''queue_pending''])
   \<and> eligible_nodes (\<lambda>s. None) (two_jobs 1 15 2 3) [''queue_running'', ''queue_pending''] \<noteq> []"
proof -
  have m: "mode (inc_call ''global''\<lparr>mode := ''bogus''\<rparr>) \<noteq> ''random''"
    "mode (inc_call ''global''\<lparr>mode := ''bogus''\<rparr>) \<noteq> ''increment''"
    "int_of_str (inc_call ''global''\<lparr>mode := ''bogus''\<rparr>) = (\<lambda>s. None)"
    by (simp_all add: inc_call_def)
  have h: "list_all (\<lambda>n. \<not> unhashable_class (\<lambda>s. None) n)
        (traversed_nodes (two_jobs 1 15 2 3) [''queue_running'', ''queue_pending''])"
    by code_simp
  then have nh: "\<not> list_ex (unhashable_class (\<lambda>s. None))
        (traversed_nodes (two_jobs 1 15 2 3) (valid_sections None))"
    by (simp add: valid_sections_def list_all_iff list_ex_iff)
  have "reseed_document (inc_call ''global''\<lparr>mode := ''bogus''\<rparr>) 0 (two_jobs 1 15 2 3) None =
          (if eligible_nodes (\<lambda>s. None) (two_jobs 1 15 2 3) (valid_sections None) = []
           then Inr (two_jobs 1 15 2 3, 0, 0) else Inl (ValueError, two_jobs 1 15 2 3))"
    using reseed_unknown_mode[OF m(1,2)] nh unfolding m(3) by blast
  then have "eligible_nodes (\<lambda>s. None) (two_jobs 1 15 2 3) (valid_sections None) \<noteq> []"
    "reseed_document (inc_call ''global''\<lparr>mode := ''bogus''\<rparr>) 0 (two_jobs 1 15 2 3) None
       = Inl (ValueError, two_jobs 1 15 2 3)"
    using two_jobs_bogus by (auto split: if_splits)
  with h show ?thesis by (simp add: valid_sections_def)
qed

subsection \<open>The default sections\<close>




end
